theory Spec2Isabelle
  imports Main "HOL-Library.Word" "HOL-Library.Sublist" "HOL-Library.Multiset"
begin

section \<open>Strings of the host: sequences of UTF-16 code units\<close>

text \<open>
  A JavaScript string is a sequence of 16-bit code units; \<open>length\<close>, indexing,
  \<open>slice\<close> and \<open>substring\<close> all count code units.  Offsets are JavaScript
  numbers holding integers, so they are modelled as \<open>int\<close>.
\<close>

type_synonym code_unit = "16 word"
type_synonym jsstring = "code_unit list"

definition ustr :: "string \<Rightarrow> jsstring" where
  "ustr s = map (\<lambda>c. of_nat (of_char c)) s"

text \<open>
  The characters matched by the regular expression \<open>\s\<close>, which are also the ones
  \<open>String.prototype.trim\<close> strips: tab, line feed, vertical tab, form feed, carriage
  return, space, no-break space, U+1680, U+2000..U+200A, U+2028, U+2029, U+202F, U+205F,
  U+3000 and U+FEFF.
\<close>

definition is_space :: "code_unit \<Rightarrow> bool" where
  "is_space c \<longleftrightarrow>
     c = 0x09 \<or> c = 0x0A \<or> c = 0x0B \<or> c = 0x0C \<or> c = 0x0D \<or> c = 0x20 \<or> c = 0xA0 \<or>
     c = 0x1680 \<or> (0x2000 \<le> c \<and> c \<le> 0x200A) \<or> c = 0x2028 \<or> c = 0x2029 \<or>
     c = 0x202F \<or> c = 0x205F \<or> c = 0x3000 \<or> c = 0xFEFF"

text \<open>
  \<open>text[i]\<close>: the code unit at index \<open>i\<close>, or \<open>undefined\<close> (here \<open>None\<close>) when
  \<open>i\<close> is not an index of the string.
\<close>

definition char_at :: "jsstring \<Rightarrow> int \<Rightarrow> code_unit option" where
  "char_at s i = (if 0 \<le> i \<and> i < int (length s) then Some (s ! nat i) else None)"

text \<open>
  \<open>/\s/.test(x)\<close>: on a one-unit string it says whether the unit is white space; on
  \<open>undefined\<close> the regular expression is run on the string "undefined", which holds no
  white space.
\<close>

definition test_space :: "code_unit option \<Rightarrow> bool" where
  "test_space x = (case x of None \<Rightarrow> False | Some c \<Rightarrow> is_space c)"

text \<open>
  \<open>String.prototype.slice\<close>: a negative index counts from the end, every index is
  clamped to the string, and an inverted range gives the empty string.
\<close>

definition slice_index :: "nat \<Rightarrow> int \<Rightarrow> nat" where
  "slice_index len k = (if k < 0 then nat (max (int len + k) 0) else min (nat k) len)"

definition str_slice :: "jsstring \<Rightarrow> int \<Rightarrow> int \<Rightarrow> jsstring" where
  "str_slice s a b =
     (let from = slice_index (length s) a; to = slice_index (length s) b
      in take (to - from) (drop from s))"

definition str_slice_from :: "jsstring \<Rightarrow> int \<Rightarrow> jsstring" where
  "str_slice_from s a = drop (slice_index (length s) a) s"

text \<open>
  \<open>String.prototype.substring\<close>: every index is clamped to \<open>[0, length]\<close> and the two
  are swapped when the first is the larger.
\<close>

definition substring_index :: "nat \<Rightarrow> int \<Rightarrow> nat" where
  "substring_index len k = min (nat k) len"

definition str_substring :: "jsstring \<Rightarrow> int \<Rightarrow> int \<Rightarrow> jsstring" where
  "str_substring s a b =
     (let fa = substring_index (length s) a; fb = substring_index (length s) b;
          from = min fa fb; to = max fa fb
      in take (to - from) (drop from s))"

text \<open>\<open>text.trim().length === 0\<close>: the text holds white space only (or nothing).\<close>

definition trim_is_empty :: "jsstring \<Rightarrow> bool" where
  "trim_is_empty s \<longleftrightarrow> list_all is_space s"

section \<open>Word boundaries\<close>

text \<open>
  \<open>findWordStart(text, position)\<close>: walk left from \<open>position\<close> while the index is
  positive and the code unit before it is not white space.
\<close>

function findWordStart :: "jsstring \<Rightarrow> int \<Rightarrow> int" where
  "findWordStart text start =
     (if start > 0 \<and> \<not> test_space (char_at text (start - 1))
      then findWordStart text (start - 1) else start)"
  by pat_completeness auto
termination
  by (relation "measure (\<lambda>(text, start). nat start)") auto

declare findWordStart.simps [simp del]

section \<open>The data model\<close>

text \<open>
  A text surface: a text input or textarea (its \<open>value\<close> and \<open>selectionStart\<close>) or a
  contenteditable element (its \<open>innerText\<close> and the caret offset computed by
  \<open>getCaretPositionContentEditable\<close>).  The identity of the DOM element is \<open>el_id\<close>.
  \<open>el_focused\<close> is \<open>document.activeElement === element\<close>.  \<open>el_overlay\<close> is the
  \<open>innerHTML\<close> of \<open>element._harperOverlay\<close>; it is \<open>None\<close> for an element on which
  \<open>ensureOverlay\<close> cannot create the overlay, and \<open>el_outline\<close> tells whether the red
  fallback outline is shown.
\<close>

record element =
  el_id :: nat
  contenteditable :: bool
  el_text :: jsstring
  el_caret :: int
  el_focused :: bool
  el_overlay :: "jsstring option"
  el_outline :: bool

text \<open>
  A lint as the analyzer returns it.  The getters of a span return \<open>ret >>> 0\<close>, an
  unsigned 32-bit integer.
\<close>

record lint =
  span_start :: "32 word"
  span_end :: "32 word"
  lint_kind :: jsstring
  suggestions :: "jsstring list"

text \<open>An entry of \<open>window._harperErrorMap\<close>: \<open>{start, end, suggestions}\<close>.\<close>

record error_record =
  err_start :: int
  err_end :: int
  err_suggestions :: "jsstring list"

text \<open>The object kept in \<open>window._lastAutoCorrection\<close>.\<close>

record correction =
  cr_element :: nat
  originalWord :: jsstring
  correctedWord :: jsstring
  pos_start :: int
  pos_end :: int
  timestamp :: nat

text \<open>
  The globals on \<open>window\<close>: the error map keyed by element, the auto-correct flag, the
  single slot of the last correction, and the value \<open>Date.now()\<close> returns.
\<close>

record window =
  harperErrorMap :: "nat \<rightharpoonup> error_record list"
  autoCorrectEnabled :: bool
  lastAutoCorrection :: "correction option"
  date_now :: nat

text \<open>A number handed to a replacement: an integer or \<open>NaN\<close>.\<close>

datatype jsnum = NaN | Num int

datatype js_exception = Exception

text \<open>
  The analyzer: whether \<open>window.harperLinter\<close> exists with a \<open>lint\<close> function after
  initialisation, and what \<open>lint(text, Plain)\<close> does: return lints or throw.
\<close>

record harper =
  linter_ready :: bool
  lint_plain :: "jsstring \<Rightarrow> js_exception + lint list"

text \<open>
  Built-ins of the host used by rendering: \<open>String.prototype.toLowerCase\<close>, and
  \<open>encodeURIComponent(JSON.stringify(list))\<close> on a list of strings, which returns the
  encoded string or throws (\<open>encodeURIComponent\<close> throws on a string that is not well
  formed).
\<close>

record host =
  toLowerCase :: "jsstring \<Rightarrow> jsstring"
  encodeSuggestions :: "jsstring list \<Rightarrow> js_exception + jsstring"

section \<open>The analyzer gateway\<close>

definition try_catch :: "js_exception + 'a \<Rightarrow> (js_exception \<Rightarrow> js_exception + 'a) \<Rightarrow> js_exception + 'a" where
  "try_catch body handler = (case body of Inl e \<Rightarrow> handler e | Inr v \<Rightarrow> Inr v)"

text \<open>
  \<open>analyzeText(text)\<close>.  The result is paired with the number of times the analyzer was
  invoked.  \<open>await window.harperReady\<close> never rejects: the initialisation catches its own
  failure and leaves \<open>window.harperLinter\<close> unset.
\<close>

definition analyzeText :: "harper \<Rightarrow> jsstring \<Rightarrow> (js_exception + lint list) \<times> nat" where
  "analyzeText h text =
     (if \<not> linter_ready h then (Inr [], 0)
      else if trim_is_empty text then (Inr [], 0)
      else (try_catch (lint_plain h text) (\<lambda>e. Inr []), 1))"

section \<open>Text replacement\<close>

text \<open>
  Placing the caret at \<open>newPos\<close> after a replacement, which the code does only when the
  element is focused.  The content of a contenteditable element is taken to be one run of
  text, so the walk over its text nodes finds a node when the text is not empty and
  \<open>newPos\<close> does not exceed its length; otherwise the selection collapses to the end of
  the element.  With a node found and a negative \<open>newPos\<close> the call of \<open>range.setStart\<close>
  throws, the exception is caught and the selection stays as it is.
\<close>

definition place_caret_contenteditable :: "element \<Rightarrow> int \<Rightarrow> element" where
  "place_caret_contenteditable element newPos =
     (if \<not> el_focused element then element
      else if el_text element = [] \<or> newPos > int (length (el_text element))
      then element\<lparr>el_caret := int (length (el_text element))\<rparr>
      else if 0 \<le> newPos then element\<lparr>el_caret := newPos\<rparr>
      else element)"

text \<open>
  In an input or textarea \<open>selectionStart\<close> and \<open>selectionEnd\<close> are assigned; the host
  clamps an offset beyond the value to its length, which is also where a negative number,
  read as an unsigned one, ends up.
\<close>

definition place_caret_input :: "element \<Rightarrow> int \<Rightarrow> element" where
  "place_caret_input element newPos =
     (if \<not> el_focused element then element
      else element\<lparr>el_caret :=
             (if 0 \<le> newPos \<and> newPos \<le> int (length (el_text element)) then newPos
              else int (length (el_text element)))\<rparr>)"

text \<open>
  \<open>applyTextReplacement(element, start, end, replacementText)\<close>.  Both branches return
  before any write when \<open>isNaN(start) || isNaN(end)\<close>; otherwise the new text is built
  with \<open>slice\<close> and assigned once.
\<close>

definition applyTextReplacement :: "element \<Rightarrow> jsnum \<Rightarrow> jsnum \<Rightarrow> jsstring \<Rightarrow> element" where
  "applyTextReplacement element start end replacementText =
     (if contenteditable element then
        (case (start, end) of
           (Num s, Num e) \<Rightarrow>
             (let oldText = el_text element;
                  newText = str_slice oldText 0 s @ replacementText @ str_slice_from oldText e
              in place_caret_contenteditable (element\<lparr>el_text := newText\<rparr>)
                   (s + int (length replacementText)))
         | _ \<Rightarrow> element)
      else
        (case (start, end) of
           (Num s, Num e) \<Rightarrow>
             (let oldText = el_text element;
                  newText = str_slice oldText 0 s @ replacementText @ str_slice_from oldText e
              in place_caret_input (element\<lparr>el_text := newText\<rparr>)
                   (s + int (length replacementText)))
         | _ \<Rightarrow> element))"

section \<open>Rendering\<close>

fun str_includes :: "jsstring \<Rightarrow> jsstring \<Rightarrow> bool" where
  "str_includes [] sub = (sub = [])"
| "str_includes (c # cs) sub = (prefix sub (c # cs) \<or> str_includes cs sub)"

definition getErrorColor :: "host \<Rightarrow> jsstring \<Rightarrow> jsstring" where
  "getErrorColor h kindRaw =
     (let kind = toLowerCase h kindRaw
      in if str_includes kind (ustr ''spell'') then ustr ''red''
         else if str_includes kind (ustr ''word'') then ustr ''green''
         else if str_includes kind (ustr ''style'') then ustr ''orange''
         else if str_includes kind (ustr ''repetition'') then ustr ''blue''
         else ustr ''gray'')"

text \<open>The decimal digits of a non-negative integer, as a template literal prints it.\<close>

fun decimal :: "nat \<Rightarrow> jsstring" where
  "decimal n = (if n < 10 then [of_nat (48 + n)] else decimal (n div 10) @ [of_nat (48 + n mod 10)])"

declare decimal.simps [simp del]

text \<open>
  The template literal of \<open>spanHtml\<close> followed by the text of the span and the closing
  tag, for a given value of \<open>suggestionsJson\<close>.
\<close>

definition span_markup :: "host \<Rightarrow> jsstring \<Rightarrow> lint \<Rightarrow> jsstring \<Rightarrow> jsstring" where
  \<open>span_markup h text error suggestionsJson =
     ustr ''<span class="harper-error"'' @ [0x0A] @
     ustr ''      style="text-decoration: underline; text-decoration-color: '' @
     getErrorColor h (lint_kind error) @
     ustr ''; text-decoration-style: solid;"'' @ [0x0A] @
     ustr ''      data-suggestions="'' @ suggestionsJson @ ustr ''"'' @ [0x0A] @
     ustr ''      data-start="'' @ decimal (unat (span_start error)) @
     ustr ''" data-end="'' @ decimal (unat (span_end error)) @ ustr ''">'' @
     str_slice text (uint (span_start error)) (uint (span_end error)) @
     ustr ''</span>''\<close>

text \<open>
  \<open>spanHtml\<close> as one round of the \<open>forEach\<close> computes it: the suggestions are encoded
  first, and an exception of the encoder leaves the round.
\<close>

definition spanHtml :: "host \<Rightarrow> jsstring \<Rightarrow> lint \<Rightarrow> js_exception + jsstring" where
  "spanHtml h text error =
     (case encodeSuggestions h (suggestions error) of
        Inl x \<Rightarrow> Inl x
      | Inr suggestionsJson \<Rightarrow> Inr (span_markup h text error suggestionsJson))"

text \<open>One round of the \<open>forEach\<close>: the markup is spliced into the string built so far.\<close>

definition splice_span :: "host \<Rightarrow> jsstring \<Rightarrow> jsstring \<Rightarrow> lint \<Rightarrow> js_exception + jsstring" where
  "splice_span h text html error =
     (case spanHtml h text error of
        Inl x \<Rightarrow> Inl x
      | Inr markup \<Rightarrow>
          Inr (str_slice html 0 (uint (span_start error)) @ markup @
               str_slice_from html (uint (span_end error))))"

text \<open>
  \<open>errors.sort((a, b) => b.span().start - a.span().start)\<close>: a stable sort by
  descending start.
\<close>

definition sort_errors :: "lint list \<Rightarrow> lint list" where
  "sort_errors errors = sort_key (\<lambda>e. - uint (span_start e)) errors"

text \<open>The \<open>forEach\<close> over the sorted records; an exception ends it.\<close>

fun render_rounds :: "host \<Rightarrow> jsstring \<Rightarrow> jsstring \<Rightarrow> lint list \<Rightarrow> js_exception + jsstring" where
  "render_rounds h text html [] = Inr html"
| "render_rounds h text html (e # es) =
     (case splice_span h text html e of
        Inl x \<Rightarrow> Inl x
      | Inr html' \<Rightarrow> render_rounds h text html' es)"

definition render_html :: "host \<Rightarrow> jsstring \<Rightarrow> lint list \<Rightarrow> js_exception + jsstring" where
  "render_html h text errors = render_rounds h text text (sort_errors errors)"

text \<open>
  \<open>renderErrors(element, text, errors)\<close>.  Without an overlay the outline is set when
  there are errors and cleared otherwise.  With one, the markup is built and then assigned
  to the overlay; the function has no \<open>try\<close>, so an exception leaves it before the
  assignment.  \<open>syncOverlay\<close> only copies geometry and style.
\<close>

definition renderErrors :: "host \<Rightarrow> element \<Rightarrow> jsstring \<Rightarrow> lint list \<Rightarrow> js_exception + element" where
  "renderErrors h element text errors =
     (case el_overlay element of
        None \<Rightarrow> Inr (element\<lparr>el_outline := (length errors > 0)\<rparr>)
      | Some _ \<Rightarrow>
          (case render_html h text errors of
             Inl x \<Rightarrow> Inl x
           | Inr html \<Rightarrow> Inr (element\<lparr>el_overlay := Some html\<rparr>)))"





section \<open>Processing a surface\<close>

definition to_error_record :: "lint \<Rightarrow> error_record" where
  "to_error_record e =
     \<lparr>err_start = uint (span_start e), err_end = uint (span_end e),
      err_suggestions = suggestions e\<rparr>"

text \<open>The part of \<open>processElement\<close> before the \<open>await\<close>: the text is read.\<close>

definition processElement_begin :: "element \<Rightarrow> jsstring" where
  "processElement_begin element = el_text element"

text \<open>
  The part of \<open>processElement\<close> after \<open>await analyzeText(text)\<close> has given \<open>errors\<close>:
  the list is stored under the element, then rendered.  \<open>text\<close> is the text read when the
  pass started, \<open>element\<close> the element as it is now.  The first component tells whether
  the promise of the pass is fulfilled; it is rejected when rendering throws, after the
  list has been stored.
\<close>

definition processElement_store ::
  "host \<Rightarrow> jsstring \<Rightarrow> lint list \<Rightarrow> element \<Rightarrow> window \<Rightarrow> bool \<times> element \<times> window" where
  "processElement_store h text errors element w =
     (let w' = w\<lparr>harperErrorMap :=
                  (harperErrorMap w)(el_id element \<mapsto> map to_error_record errors)\<rparr>
      in case renderErrors h element text errors of
           Inl x \<Rightarrow> (False, element, w')
         | Inr element' \<Rightarrow> (True, element', w'))"



section \<open>Auto-correction and its reversion\<close>

text \<open>
  The word the caret just left: when the code unit before the caret is a space the caret
  position is moved back before it; the word starts at \<open>findWordStart\<close>.  The pair is
  \<open>(wordStart, caretPos)\<close>.
\<close>

definition word_bounds :: "element \<Rightarrow> int \<times> int" where
  "word_bounds element =
     (let text = el_text element;
          caret = el_caret element;
          caretPos = (if caret > 0 \<and> char_at text (caret - 1) = Some 0x20 then caret - 1 else caret)
      in (findWordStart text caretPos, caretPos))"

text \<open>The three \<open>errors.find\<close> calls, each tried when the one before found nothing.\<close>

definition match_error :: "error_record list \<Rightarrow> int \<Rightarrow> int \<Rightarrow> error_record option" where
  "match_error errors wordStart caretPos =
     (case find (\<lambda>err. err_start err = wordStart \<and> err_end err = caretPos) errors of
        Some error \<Rightarrow> Some error
      | None \<Rightarrow>
          (case find (\<lambda>err. err_start err \<le> wordStart \<and> err_end err \<ge> caretPos) errors of
             Some error \<Rightarrow> Some error
           | None \<Rightarrow> find (\<lambda>err. err_start err \<le> caretPos \<and> err_end err > wordStart) errors))"

text \<open>
  \<open>tryAutoCorrect(element)\<close>: the value returned, the element and the globals afterwards.
  The highlight effect and the re-processing scheduled with \<open>setTimeout\<close> touch neither
  the text nor the slot.
\<close>

definition tryAutoCorrect :: "element \<Rightarrow> window \<Rightarrow> bool \<times> element \<times> window" where
  "tryAutoCorrect element w =
     (if \<not> autoCorrectEnabled w then (False, element, w)
      else case harperErrorMap w (el_id element) of
        None \<Rightarrow> (False, element, w)
      | Some errors \<Rightarrow>
          (let text = el_text element;
               (wordStart, caretPos) = word_bounds element
           in if wordStart = caretPos then (False, element, w)
              else if trim_is_empty (str_substring text wordStart caretPos) then (False, element, w)
              else case match_error errors wordStart caretPos of
                None \<Rightarrow> (False, element, w)
              | Some error \<Rightarrow>
                  (case err_suggestions error of
                     [] \<Rightarrow> (False, element, w)
                   | suggestion # _ \<Rightarrow>
                       (let originalWord = str_substring text (err_start error) (err_end error);
                            replacementWithSpace = suggestion @ [0x20];
                            w' = w\<lparr>lastAutoCorrection := Some
                                   \<lparr>cr_element = el_id element,
                                    originalWord = originalWord,
                                    correctedWord = suggestion,
                                    pos_start = err_start error,
                                    pos_end = err_start error + int (length replacementWithSpace),
                                    timestamp = date_now w\<rparr>\<rparr>
                        in (True,
                            applyTextReplacement element (Num (err_start error))
                              (Num (err_end error)) replacementWithSpace,
                            w')))))"

text \<open>\<open>tryRevertCorrection(element)\<close>.\<close>

definition tryRevertCorrection :: "element \<Rightarrow> window \<Rightarrow> bool \<times> element \<times> window" where
  "tryRevertCorrection element w =
     (case lastAutoCorrection w of
        None \<Rightarrow> (False, element, w)
      | Some correction \<Rightarrow>
          if cr_element correction \<noteq> el_id element then (False, element, w)
          else
            (let caretPos = el_caret element;
                 expectedPosAfterBackspace =
                   pos_start correction + int (length (correctedWord correction))
             in if caretPos \<noteq> expectedPosAfterBackspace
                then (False, element,
                      if \<bar>caretPos - expectedPosAfterBackspace\<bar> > 2
                      then w\<lparr>lastAutoCorrection := None\<rparr> else w)
                else (True,
                      applyTextReplacement element (Num (pos_start correction))
                        (Num (pos_end correction)) (originalWord correction),
                      w\<lparr>lastAutoCorrection := None\<rparr>)))"

section \<open>Input events\<close>

datatype input_event = InsertText jsstring | DeleteContentBackward | OtherInput



text \<open>
  A run of reversion attempts, one after the other, each on an element in whatever state
  it is then; the globals are threaded through.
\<close>

fun revert_attempts :: "element list \<Rightarrow> window \<Rightarrow> window" where
  "revert_attempts [] w = w"
| "revert_attempts (element # elements) w =
     revert_attempts elements (snd (snd (tryRevertCorrection element w)))"

text \<open>
  The lookup of \<open>handleContextMenu\<close>: the first stored record of the element with
  \<open>start \<le> caretPos \<le> end\<close>, which is handed to the tooltip.
\<close>

definition handleContextMenu_error :: "element \<Rightarrow> window \<Rightarrow> error_record option" where
  "handleContextMenu_error element w =
     (let caretPos = el_caret element;
          errors = (case harperErrorMap w (el_id element) of None \<Rightarrow> [] | Some es \<Rightarrow> es)
      in find (\<lambda>err. caretPos \<ge> err_start err \<and> caretPos \<le> err_end err) errors)"

section \<open>The passes of a surface on the microtask queue\<close>

text \<open>
  \<open>processElement\<close> is an \<open>async\<close> function.  A call reads the text and suspends in
  \<open>analyzeText\<close> at \<open>await window.harperReady\<close>; the rest of \<open>analyzeText\<close> is a
  microtask, in which the analyzer is called and returns at once; the rest of
  \<open>processElement\<close> is a second microtask, queued when the first ends.  The host runs
  the queue first in, first out, and empties it before the next task.  Listeners are
  attached only after \<open>harperReady\<close> has resolved, so every call finds it resolved.

  A page is one surface with the globals and the queue.  Two fields are not in the
  program: \<open>started\<close> numbers the passes as they start, and \<open>arrived\<close> lists the numbers
  of the passes in the order in which they stored their result.
\<close>

datatype microtask =
    AfterReady nat jsstring
  | AfterAnalyze nat jsstring "lint list"

record page =
  surface :: element
  globals :: window
  microtasks :: "microtask list"
  started :: nat
  arrived :: "nat list"

text \<open>
  What happens in a task before the queue is run: \<open>processElement\<close> is called on the
  surface (as the \<open>blur\<close> listener and the observer of added nodes do), or the text of
  the surface is changed (by the user between two tasks, by a script of the page within
  one).
\<close>

datatype action = CallProcessElement | ChangeText jsstring

definition call_processElement :: "page \<Rightarrow> page" where
  "call_processElement p =
     p\<lparr>microtasks := microtasks p @ [AfterReady (started p) (processElement_begin (surface p))],
       started := Suc (started p)\<rparr>"

fun do_action :: "action \<Rightarrow> page \<Rightarrow> page" where
  "do_action CallProcessElement p = call_processElement p"
| "do_action (ChangeText t) p = p\<lparr>surface := (surface p)\<lparr>el_text := t\<rparr>\<rparr>"

definition run_microtask :: "harper \<Rightarrow> host \<Rightarrow> microtask \<Rightarrow> page \<Rightarrow> page" where
  "run_microtask hp h m p =
     (case m of
        AfterReady n text \<Rightarrow>
          (case fst (analyzeText hp text) of
             Inl e \<Rightarrow> p
           | Inr errors \<Rightarrow> p\<lparr>microtasks := microtasks p @ [AfterAnalyze n text errors]\<rparr>)
      | AfterAnalyze n text errors \<Rightarrow>
          (case processElement_store h text errors (surface p) (globals p) of
             (fulfilled, element', w') \<Rightarrow>
               p\<lparr>surface := element', globals := w', arrived := arrived p @ [n]\<rparr>))"

text \<open>One turn of the queue: the first microtask is taken off and run.\<close>

definition queue_turn :: "harper \<Rightarrow> host \<Rightarrow> page \<Rightarrow> page" where
  "queue_turn hp h p =
     (case microtasks p of
        [] \<Rightarrow> p
      | m # ms \<Rightarrow> run_microtask hp h m (p\<lparr>microtasks := ms\<rparr>))"

fun microtask_weight :: "microtask \<Rightarrow> nat" where
  "microtask_weight (AfterReady n text) = 2"
| "microtask_weight (AfterAnalyze n text errors) = 1"

text \<open>The queue is run until it is empty.\<close>

function drain :: "harper \<Rightarrow> host \<Rightarrow> page \<Rightarrow> page" where
  "drain hp h p = (if microtasks p = [] then p else drain hp h (queue_turn hp h p))"
  by pat_completeness auto
termination
proof (relation "measure (\<lambda>(hp, h, p). sum_list (map microtask_weight (microtasks p)))")
  show "wf (measure (\<lambda>(hp, h, p). sum_list (map microtask_weight (microtasks p))))"
    by simp
next
  fix hp :: harper and h :: host and p :: page
  assume "microtasks p \<noteq> []"
  then show "((hp, h, queue_turn hp h p), (hp, h, p))
      \<in> measure (\<lambda>(hp, h, p). sum_list (map microtask_weight (microtasks p)))"
    by (cases "microtasks p")
       (auto simp: queue_turn_def run_microtask_def
          split: microtask.splits sum.splits prod.splits)
qed

declare drain.simps [simp del]

definition run_task :: "harper \<Rightarrow> host \<Rightarrow> action list \<Rightarrow> page \<Rightarrow> page" where
  "run_task hp h actions p = drain hp h (foldl (\<lambda>q a. do_action a q) p actions)"

text \<open>The texts the calls of \<open>processElement\<close> in a task read, in the order of the calls.\<close>

fun texts_read :: "action list \<Rightarrow> jsstring \<Rightarrow> jsstring list" where
  "texts_read [] current = []"
| "texts_read (CallProcessElement # actions) current = current # texts_read actions current"
| "texts_read (ChangeText t # actions) current = texts_read actions t"

text \<open>The text of the surface after the actions of a task.\<close>

fun text_after :: "action list \<Rightarrow> jsstring \<Rightarrow> jsstring" where
  "text_after [] current = current"
| "text_after (CallProcessElement # actions) current = text_after actions current"
| "text_after (ChangeText t # actions) current = text_after actions t"

text \<open>
  The lints \<open>analyzeText\<close> resolves with for a text, and the list a pass that read the
  text stores: the records made of these lints.
\<close>

definition lints_of :: "harper \<Rightarrow> jsstring \<Rightarrow> lint list" where
  "lints_of hp text = (case fst (analyzeText hp text) of Inl e \<Rightarrow> [] | Inr errors \<Rightarrow> errors)"

definition analysis_of :: "harper \<Rightarrow> jsstring \<Rightarrow> error_record list" where
  "analysis_of hp text = map to_error_record (lints_of hp text)"

section \<open>Example surfaces\<close>

text \<open>
  A focused text input with an overlay, a window whose error map holds one list for one
  element, and an analyzer and host for the examples: the analyzer answers one text with
  one list of lints and every other text with none; the host's two built-ins as they act
  on lower-case kinds and on suggestions made of letters and digits only (every string in
  double quotes, written \<open>%22\<close>, the strings separated by \<open>%2C\<close>, the list in \<open>%5B\<close>
  and \<open>%5D\<close>).
\<close>

definition input_field :: "nat \<Rightarrow> jsstring \<Rightarrow> int \<Rightarrow> element" where
  "input_field i text caret =
     \<lparr>el_id = i, contenteditable = False, el_text = text, el_caret = caret,
      el_focused = True, el_overlay = Some [], el_outline = False\<rparr>"

definition window_with ::
  "nat \<Rightarrow> error_record list \<Rightarrow> correction option \<Rightarrow> window" where
  "window_with i errors slot =
     \<lparr>harperErrorMap = [i \<mapsto> errors], autoCorrectEnabled = True,
      lastAutoCorrection = slot, date_now = 0\<rparr>"

definition analyzer_for :: "jsstring \<Rightarrow> lint list \<Rightarrow> harper" where
  "analyzer_for text lints =
     \<lparr>linter_ready = True, lint_plain = (\<lambda>t. if t = text then Inr lints else Inr [])\<rparr>"

fun join_encoded :: "jsstring list \<Rightarrow> jsstring" where
  "join_encoded [] = []"
| "join_encoded [s] = ustr ''%22'' @ s @ ustr ''%22''"
| "join_encoded (s # r # rs) = ustr ''%22'' @ s @ ustr ''%22%2C'' @ join_encoded (r # rs)"

definition plain_encode :: "jsstring list \<Rightarrow> jsstring" where
  "plain_encode l = ustr ''%5B'' @ join_encoded l @ ustr ''%5D''"

definition plain_host :: host where
  "plain_host = \<lparr>toLowerCase = (\<lambda>s. s), encodeSuggestions = (\<lambda>l. Inr (plain_encode l))\<rparr>"






text \<open>
  An analyzer that answers "teh cat" with the suggestion "the" for \<open>[0, 3)\<close>, and a page
  whose surface holds that text, with an empty list stored, an empty queue and no pass
  started yet.
\<close>

definition cat_analyzer :: harper where
  "cat_analyzer =
     analyzer_for (ustr ''teh cat'')
       [\<lparr>span_start = 0, span_end = 3, lint_kind = ustr ''spelling'',
         suggestions = [ustr ''the'']\<rparr>]"

definition cat_page :: page where
  "cat_page =
     \<lparr>surface = input_field 1 (ustr ''teh cat'') 7, globals = window_with 1 [] None,
      microtasks = [], started = 0, arrived = []\<rparr>"

text \<open>
  Two passes in one task: \<open>processElement\<close> is called, the text becomes "the cat", and
  \<open>processElement\<close> is called again.  After three turns of the queue the first pass has
  stored its result and the second has not yet.
\<close>

definition cat_two_passes :: page where
  "cat_two_passes =
     foldl (\<lambda>q a. do_action a q) cat_page
       [CallProcessElement, ChangeText (ustr ''the cat''), CallProcessElement]"

definition cat_first_arrival :: page where
  "cat_first_arrival =
     queue_turn cat_analyzer plain_host
       (queue_turn cat_analyzer plain_host
          (queue_turn cat_analyzer plain_host cat_two_passes))"

text \<open>
  A pass on "teh cat" that has resolved, and then, in a later task, the text edited to
  "the cat"; the pass that the edit schedules has not started.
\<close>

definition cat_edited :: page where
  "cat_edited =
     run_task cat_analyzer plain_host [ChangeText (ustr ''the cat'')]
       (run_task cat_analyzer plain_host [CallProcessElement] cat_page)"





section \<open>Rules for evaluating the examples\<close>

lemmas string_evals = ustr_def str_slice_def str_slice_from_def str_substring_def
  slice_index_def substring_index_def char_at_def test_space_def is_space_def trim_is_empty_def

section \<open>Properties of the word boundary\<close>

lemma findWordStart_step:
  "start > 0 \<and> \<not> test_space (char_at t (start - 1)) \<Longrightarrow>
   findWordStart t start = findWordStart t (start - 1)"
  by (subst findWordStart.simps) simp

lemma findWordStart_stop:
  "\<not> (start > 0 \<and> \<not> test_space (char_at t (start - 1))) \<Longrightarrow> findWordStart t start = start"
  by (subst findWordStart.simps) auto

lemma findWordStart_le: "findWordStart t p \<le> p"
  by (induction t p rule: findWordStart.induct) (subst findWordStart.simps, auto)

lemma findWordStart_nonneg: "0 \<le> p \<Longrightarrow> 0 \<le> findWordStart t p"
  by (induction t p rule: findWordStart.induct) (subst findWordStart.simps, auto)

lemma findWordStart_no_space:
  "p \<le> int (length t) \<Longrightarrow> findWordStart t p \<le> i \<Longrightarrow> i < p \<Longrightarrow>
   \<not> is_space (t ! nat i)"
proof (induction t p rule: findWordStart.induct)
  case (1 t start)
  show ?case
  proof (cases "start > 0 \<and> \<not> test_space (char_at t (start - 1))")
    case True
    note eq = findWordStart_step [OF True]
    show ?thesis
    proof (cases "i = start - 1")
      case at_end: True
      from True "1.prems" have "char_at t (start - 1) = Some (t ! nat (start - 1))"
        by (simp add: char_at_def)
      with True at_end show ?thesis by (simp add: test_space_def)
    next
      case False
      with "1.IH" [OF True] "1.prems" eq show ?thesis by simp
    qed
  next
    case False
    from findWordStart_stop [OF False] "1.prems" show ?thesis by simp
  qed
qed

lemma findWordStart_boundary:
  "0 \<le> p \<Longrightarrow> p \<le> int (length t) \<Longrightarrow>
   findWordStart t p = 0 \<or> is_space (t ! nat (findWordStart t p - 1))"
proof (induction t p rule: findWordStart.induct)
  case (1 t start)
  show ?case
  proof (cases "start > 0 \<and> \<not> test_space (char_at t (start - 1))")
    case True
    from "1.IH" [OF True] "1.prems" True findWordStart_step [OF True] show ?thesis by simp
  next
    case False
    note eq = findWordStart_stop [OF False]
    show ?thesis
    proof (cases "start = 0")
      case True
      with eq show ?thesis by simp
    next
      case nz: False
      with "1.prems" have "char_at t (start - 1) = Some (t ! nat (start - 1))"
        by (simp add: char_at_def)
      with False nz "1.prems" eq show ?thesis by (simp add: test_space_def)
    qed
  qed
qed

text \<open>
  Claim C10.  For every text and every position \<open>p\<close> with \<open>0 \<le> p \<le> length text\<close>,
  \<open>findWordStart\<close> returns an index \<open>s\<close> with \<open>0 \<le> s \<le> p\<close> such that no code unit of
  \<open>text[s..p)\<close> is white space and either \<open>s = 0\<close> or \<open>text[s - 1]\<close> is white space: the
  start of the word that ends at \<open>p\<close>.
\<close>

theorem findWordStart_is_word_start:
  assumes "0 \<le> p" and "p \<le> int (length t)"
  shows "0 \<le> findWordStart t p \<and> findWordStart t p \<le> p \<and>
         (\<forall>i. findWordStart t p \<le> i \<and> i < p \<longrightarrow> \<not> is_space (t ! nat i)) \<and>
         (findWordStart t p = 0 \<or> is_space (t ! nat (findWordStart t p - 1)))"
  using assms findWordStart_le [of t p] findWordStart_nonneg [of p t]
    findWordStart_no_space [of p t] findWordStart_boundary [of p t]
  by blast

theorem findWordStart_is_word_start_witness:
  "(0::int) \<le> 5 \<and> 5 \<le> int (length (ustr ''I has a dog'')) \<and>
   findWordStart (ustr ''I has a dog'') 5 = 2 \<and>
   \<not> is_space (ustr ''I has a dog'' ! 2) \<and>
   \<not> is_space (ustr ''I has a dog'' ! 3) \<and>
   \<not> is_space (ustr ''I has a dog'' ! 4) \<and>
   is_space (ustr ''I has a dog'' ! 1)"
proof -
  have v: "findWordStart (ustr ''I has a dog'') 5 = 2"
    by (simp add: findWordStart.simps ustr_def char_at_def test_space_def is_space_def)
  have h: "(0::int) \<le> 5" "5 \<le> int (length (ustr ''I has a dog''))"
    by (simp_all add: ustr_def)
  from findWordStart_is_word_start [OF h]
  have a: "\<forall>i. 2 \<le> i \<and> i < 5 \<longrightarrow> \<not> is_space (ustr ''I has a dog'' ! nat i)"
    and b: "is_space (ustr ''I has a dog'' ! nat (2 - 1))"
    using v by simp_all
  from a [rule_format, of 2] a [rule_format, of 3] a [rule_format, of 4] b v h
  show ?thesis by simp
qed

section \<open>The analyzer gateway degrades to the empty list\<close>

text \<open>
  Claim C8.  For every text, \<open>analyzeText\<close> returns the empty list without invoking the
  analyzer when the text is empty or holds white space only; when the invocation of the
  analyzer throws, the exception is caught and the empty list is returned; the call always
  returns a list and never passes a failure on to its caller.
\<close>

theorem analyzeText_degrades_to_empty:
  "((\<forall>c\<in>set text. is_space c) \<longrightarrow> analyzeText h text = (Inr [], 0)) \<and>
   (\<forall>e. lint_plain h text = Inl e \<longrightarrow> fst (analyzeText h text) = Inr []) \<and>
   (\<exists>errors. fst (analyzeText h text) = Inr errors)"
  by (auto simp: analyzeText_def trim_is_empty_def try_catch_def list_all_iff split: sum.splits)

theorem analyzeText_degrades_to_empty_witness:
  "analyzeText \<lparr>linter_ready = True, lint_plain = (\<lambda>t. Inl Exception)\<rparr> (ustr ''  '') = (Inr [], 0) \<and>
   analyzeText \<lparr>linter_ready = True, lint_plain = (\<lambda>t. Inl Exception)\<rparr> [] = (Inr [], 0) \<and>
   analyzeText \<lparr>linter_ready = True, lint_plain = (\<lambda>t. Inl Exception)\<rparr> (ustr ''teh'') = (Inr [], 1)"
proof -
  let ?h = "\<lparr>linter_ready = True, lint_plain = (\<lambda>t. Inl Exception)\<rparr>"
  have sp: "\<forall>c\<in>set (ustr ''  ''). is_space c"
    by (simp add: ustr_def is_space_def)
  have a: "analyzeText ?h (ustr ''  '') = (Inr [], 0)"
    using analyzeText_degrades_to_empty [of "ustr ''  ''" ?h] sp by blast
  have b: "analyzeText ?h [] = (Inr [], 0)"
    using analyzeText_degrades_to_empty [of "[]" ?h] by simp
  have "fst (analyzeText ?h (ustr ''teh'')) = Inr []"
    using analyzeText_degrades_to_empty [of "ustr ''teh''" ?h] by simp
  moreover have "snd (analyzeText ?h (ustr ''teh'')) = 1"
    by (simp add: analyzeText_def trim_is_empty_def ustr_def is_space_def)
  ultimately have c: "analyzeText ?h (ustr ''teh'') = (Inr [], 1)"
    by (simp add: prod_eq_iff)
  from a b c show ?thesis by simp
qed

section \<open>Properties of text replacement\<close>

lemma str_slice_take: "0 \<le> s \<Longrightarrow> str_slice t 0 s = take (nat s) t"
  by (simp add: str_slice_def slice_index_def Let_def min_def)

lemma str_slice_from_drop: "0 \<le> e \<Longrightarrow> str_slice_from t e = drop (nat e) t"
  by (simp add: str_slice_from_def slice_index_def min_def)

lemma str_substring_take_drop:
  "0 \<le> s \<Longrightarrow> s \<le> e \<Longrightarrow> str_substring t s e = take (nat e - nat s) (drop (nat s) t)"
  by (auto simp: str_substring_def substring_index_def Let_def min_def max_def)

lemma applyTextReplacement_text:
  "el_text (applyTextReplacement element (Num s) (Num e) r) =
     str_slice (el_text element) 0 s @ r @ str_slice_from (el_text element) e"
  by (simp add: applyTextReplacement_def place_caret_contenteditable_def
      place_caret_input_def Let_def)

text \<open>
  Claim C5, as the specification states it: a replacement whose start or end is out of
  range for the current text aborts and leaves the text untouched.  It fails: on the text
  "abc" the replacement of \<open>[5, 7)\<close> by "X" is carried out, \<open>slice\<close> clamps both offsets,
  and the text becomes "abcX".
\<close>

theorem applyTextReplacement_out_of_range_counterexample:
  "el_text (applyTextReplacement (input_field 1 (ustr ''abc'') 3) (Num 5) (Num 7) (ustr ''X''))
     = ustr ''abcX'' \<and>
   ustr ''abcX'' \<noteq> el_text (input_field 1 (ustr ''abc'') 3) \<and>
   \<not> (5::int) \<le> int (length (ustr ''abc''))"
  by (simp add: applyTextReplacement_def place_caret_contenteditable_def
      place_caret_input_def str_slice_def str_slice_from_def slice_index_def ustr_def
      input_field_def)

text \<open>
  Claim C5, amended.  A replacement whose start or end is \<open>NaN\<close> aborts and leaves the
  element as it was.  With two numbers, in range or not, the text afterwards is
  \<open>slice(0, start) + replacement + slice(end)\<close> of the old text: the new content is
  computed in full and written once.
\<close>

theorem applyTextReplacement_NaN_or_spliced:
  "((start = NaN \<or> end = NaN) \<longrightarrow> applyTextReplacement element start end r = element) \<and>
   (\<forall>s e. start = Num s \<and> end = Num e \<longrightarrow>
      el_text (applyTextReplacement element start end r) =
        str_slice (el_text element) 0 s @ r @ str_slice_from (el_text element) e)"
  by (auto simp: applyTextReplacement_def place_caret_contenteditable_def
      place_caret_input_def Let_def split: jsnum.splits)

theorem applyTextReplacement_NaN_or_spliced_witness:
  "applyTextReplacement (input_field 1 (ustr ''abc'') 3) NaN (Num 2) (ustr ''X'') =
     input_field 1 (ustr ''abc'') 3 \<and>
   el_text (applyTextReplacement (input_field 1 (ustr ''abc'') 3) (Num 1) (Num 2) (ustr ''X'')) =
     ustr ''aXc''"
proof -
  let ?el = "input_field 1 (ustr ''abc'') 3"
  have a: "applyTextReplacement ?el NaN (Num 2) (ustr ''X'') = ?el"
    using applyTextReplacement_NaN_or_spliced [of NaN "Num 2" ?el "ustr ''X''"] by simp
  have "el_text (applyTextReplacement ?el (Num 1) (Num 2) (ustr ''X'')) =
        str_slice (el_text ?el) 0 1 @ ustr ''X'' @ str_slice_from (el_text ?el) 2"
    using applyTextReplacement_NaN_or_spliced [of "Num 1" "Num 2" ?el "ustr ''X''"] by simp
  then have b: "el_text (applyTextReplacement ?el (Num 1) (Num 2) (ustr ''X'')) = ustr ''aXc''"
    by (simp add: str_slice_def str_slice_from_def slice_index_def ustr_def input_field_def)
  from a b show ?thesis by simp
qed

section \<open>Reverting a correction\<close>

text \<open>
  Claim C3.  \<open>tryRevertCorrection\<close> reverts only when a correction is recorded for the
  element and the caret is exactly at \<open>correction.start + length correctedWord\<close>.  At any
  other caret offset the element is left as it was, and when the caret is more than 2 away
  from that offset the record is discarded (within 2 it is kept).  A successful revert
  replaces \<open>[correction.start, correction.end)\<close> by \<open>originalWord\<close> and clears the record.
\<close>

theorem tryRevertCorrection_exact_caret:
  assumes "tryRevertCorrection element w = (reverted, element', w')"
  shows "(reverted \<longleftrightarrow>
            (\<exists>c. lastAutoCorrection w = Some c \<and> cr_element c = el_id element \<and>
                 el_caret element = pos_start c + int (length (correctedWord c)))) \<and>
         (\<not> reverted \<longrightarrow> element' = element) \<and>
         (\<forall>c. lastAutoCorrection w = Some c \<and> cr_element c = el_id element \<and>
              \<bar>el_caret element - (pos_start c + int (length (correctedWord c)))\<bar> > 2
              \<longrightarrow> lastAutoCorrection w' = None) \<and>
         (\<forall>c. lastAutoCorrection w = Some c \<and> cr_element c = el_id element \<and>
              el_caret element \<noteq> pos_start c + int (length (correctedWord c)) \<and>
              \<bar>el_caret element - (pos_start c + int (length (correctedWord c)))\<bar> \<le> 2
              \<longrightarrow> w' = w) \<and>
         (\<forall>c. reverted \<and> lastAutoCorrection w = Some c \<longrightarrow>
              el_text element' =
                str_slice (el_text element) 0 (pos_start c) @ originalWord c @
                str_slice_from (el_text element) (pos_end c) \<and>
              (0 \<le> pos_start c \<and> pos_start c \<le> pos_end c \<longrightarrow>
                 el_text element' =
                   take (nat (pos_start c)) (el_text element) @ originalWord c @
                   drop (nat (pos_end c)) (el_text element)) \<and>
              lastAutoCorrection w' = None)"
  using assms
  by (auto simp: tryRevertCorrection_def Let_def applyTextReplacement_text
      str_slice_take str_slice_from_drop split: option.splits if_splits)

theorem tryRevertCorrection_exact_caret_witness:
  "el_text (fst (snd (tryRevertCorrection (input_field 1 (ustr ''I have a dog'') 6)
      (window_with 1 [] (Some \<lparr>cr_element = 1, originalWord = ustr ''has'',
         correctedWord = ustr ''have'', pos_start = 2, pos_end = 7, timestamp = 0\<rparr>)))))
     = ustr ''I hasa dog'' \<and>
   lastAutoCorrection (snd (snd (tryRevertCorrection (input_field 1 (ustr ''I have a dog'') 6)
      (window_with 1 [] (Some \<lparr>cr_element = 1, originalWord = ustr ''has'',
         correctedWord = ustr ''have'', pos_start = 2, pos_end = 7, timestamp = 0\<rparr>))))) = None \<and>
   fst (snd (tryRevertCorrection (input_field 1 (ustr ''I have a dog'') 7)
      (window_with 1 [] (Some \<lparr>cr_element = 1, originalWord = ustr ''has'',
         correctedWord = ustr ''have'', pos_start = 2, pos_end = 7, timestamp = 0\<rparr>))))
     = input_field 1 (ustr ''I have a dog'') 7 \<and>
   lastAutoCorrection (snd (snd (tryRevertCorrection (input_field 1 (ustr ''I have a dog'') 12)
      (window_with 1 [] (Some \<lparr>cr_element = 1, originalWord = ustr ''has'',
         correctedWord = ustr ''have'', pos_start = 2, pos_end = 7, timestamp = 0\<rparr>))))) = None"
proof -
  let ?c = "\<lparr>cr_element = 1, originalWord = ustr ''has'',
         correctedWord = ustr ''have'', pos_start = 2, pos_end = 7, timestamp = 0\<rparr>"
  let ?w = "window_with 1 [] (Some ?c)"
  have slot: "lastAutoCorrection ?w = Some ?c"
    by (simp add: window_with_def)
  obtain r6 e6 w6 where t6:
    "tryRevertCorrection (input_field 1 (ustr ''I have a dog'') 6) ?w = (r6, e6, w6)"
    by (cases "tryRevertCorrection (input_field 1 (ustr ''I have a dog'') 6) ?w") auto
  have r6: "r6"
    using tryRevertCorrection_exact_caret [OF t6] slot
    by (simp add: input_field_def ustr_def)
  have a: "el_text e6 = ustr ''I hasa dog'' \<and> lastAutoCorrection w6 = None"
    using tryRevertCorrection_exact_caret [OF t6] slot r6
    by (simp add: input_field_def ustr_def str_slice_def str_slice_from_def slice_index_def)
  obtain r7 e7 w7 where t7:
    "tryRevertCorrection (input_field 1 (ustr ''I have a dog'') 7) ?w = (r7, e7, w7)"
    by (cases "tryRevertCorrection (input_field 1 (ustr ''I have a dog'') 7) ?w") auto
  have r7: "\<not> r7"
    using tryRevertCorrection_exact_caret [OF t7] slot
    by (simp add: input_field_def ustr_def)
  have b: "e7 = input_field 1 (ustr ''I have a dog'') 7"
    using tryRevertCorrection_exact_caret [OF t7] r7 by simp
  obtain r12 e12 w12 where t12:
    "tryRevertCorrection (input_field 1 (ustr ''I have a dog'') 12) ?w = (r12, e12, w12)"
    by (cases "tryRevertCorrection (input_field 1 (ustr ''I have a dog'') 12) ?w") auto
  have c: "lastAutoCorrection w12 = None"
    using tryRevertCorrection_exact_caret [OF t12] slot
    by (simp add: input_field_def ustr_def)
  from a b c t6 t7 t12 show ?thesis by simp
qed

section \<open>Applying a correction\<close>

lemma tryAutoCorrect_cases:
  "tryAutoCorrect element w =
     (if autoCorrectEnabled w then
        (case harperErrorMap w (el_id element) of
           None \<Rightarrow> (False, element, w)
         | Some errors \<Rightarrow>
             if fst (word_bounds element) = snd (word_bounds element) then (False, element, w)
             else if trim_is_empty (str_substring (el_text element) (fst (word_bounds element))
                        (snd (word_bounds element)))
             then (False, element, w)
             else
               (case match_error errors (fst (word_bounds element)) (snd (word_bounds element)) of
                  None \<Rightarrow> (False, element, w)
                | Some error \<Rightarrow>
                    (case err_suggestions error of
                       [] \<Rightarrow> (False, element, w)
                     | suggestion # rest \<Rightarrow>
                         (True,
                          applyTextReplacement element (Num (err_start error))
                            (Num (err_end error)) (suggestion @ [0x20]),
                          w\<lparr>lastAutoCorrection := Some
                             \<lparr>cr_element = el_id element,
                              originalWord =
                                str_substring (el_text element) (err_start error) (err_end error),
                              correctedWord = suggestion,
                              pos_start = err_start error,
                              pos_end = err_start error + int (length (suggestion @ [0x20])),
                              timestamp = date_now w\<rparr>\<rparr>))))
      else (False, element, w))"
  by (simp add: tryAutoCorrect_def Let_def split_beta split: option.splits list.splits)

text \<open>
  Claim C2.  \<open>tryAutoCorrect\<close> applies a correction exactly when auto-correct is enabled,
  the word before the caret is not empty and the matching finds an error record with at
  least one suggestion.  It then replaces the span \<open>[start, end)\<close> of that record by the
  first suggestion followed by one space, and records a correction whose \<open>originalWord\<close>
  is the text of the replaced span, whose \<open>correctedWord\<close> is the suggestion and whose
  range is \<open>[start, start + length (suggestion + " "))\<close>.
\<close>

theorem tryAutoCorrect_replaces_span:
  assumes "tryAutoCorrect element w = (applied, element', w')"
  shows "(applied \<longleftrightarrow>
            (\<exists>errors error.
               autoCorrectEnabled w \<and> harperErrorMap w (el_id element) = Some errors \<and>
               fst (word_bounds element) \<noteq> snd (word_bounds element) \<and>
               \<not> trim_is_empty (str_substring (el_text element) (fst (word_bounds element))
                     (snd (word_bounds element))) \<and>
               match_error errors (fst (word_bounds element)) (snd (word_bounds element))
                 = Some error \<and>
               err_suggestions error \<noteq> [])) \<and>
         (applied \<longrightarrow>
            (\<exists>errors error.
               harperErrorMap w (el_id element) = Some errors \<and>
               match_error errors (fst (word_bounds element)) (snd (word_bounds element))
                 = Some error \<and>
               err_suggestions error \<noteq> [] \<and>
               el_text element' =
                 str_slice (el_text element) 0 (err_start error) @
                 (hd (err_suggestions error) @ [0x20]) @
                 str_slice_from (el_text element) (err_end error) \<and>
               (0 \<le> err_start error \<and> err_start error \<le> err_end error \<longrightarrow>
                  el_text element' =
                    take (nat (err_start error)) (el_text element) @
                    hd (err_suggestions error) @ [0x20] @
                    drop (nat (err_end error)) (el_text element) \<and>
                  str_substring (el_text element) (err_start error) (err_end error) =
                    take (nat (err_end error) - nat (err_start error))
                      (drop (nat (err_start error)) (el_text element))) \<and>
               lastAutoCorrection w' = Some
                 \<lparr>cr_element = el_id element,
                  originalWord =
                    str_substring (el_text element) (err_start error) (err_end error),
                  correctedWord = hd (err_suggestions error),
                  pos_start = err_start error,
                  pos_end = err_start error + int (length (hd (err_suggestions error) @ [0x20])),
                  timestamp = date_now w\<rparr>))"
  using assms unfolding tryAutoCorrect_cases
  by (auto simp: applyTextReplacement_text str_slice_take str_slice_from_drop
      str_substring_take_drop split: option.splits list.splits if_splits)

theorem tryAutoCorrect_replaces_span_witness:
  "fst (tryAutoCorrect (input_field 1 (ustr ''I has '') 6)
         (window_with 1 [\<lparr>err_start = 2, err_end = 5, err_suggestions = [ustr ''have'', ustr ''had'']\<rparr>] None)) \<and>
   el_text (fst (snd (tryAutoCorrect (input_field 1 (ustr ''I has '') 6)
         (window_with 1 [\<lparr>err_start = 2, err_end = 5, err_suggestions = [ustr ''have'', ustr ''had'']\<rparr>] None))))
     = ustr ''I have  '' \<and>
   lastAutoCorrection (snd (snd (tryAutoCorrect (input_field 1 (ustr ''I has '') 6)
         (window_with 1 [\<lparr>err_start = 2, err_end = 5, err_suggestions = [ustr ''have'', ustr ''had'']\<rparr>] None))))
     = Some \<lparr>cr_element = 1, originalWord = ustr ''has'', correctedWord = ustr ''have'',
             pos_start = 2, pos_end = 7, timestamp = 0\<rparr>"
proof -
  let ?e = "\<lparr>err_start = 2, err_end = 5, err_suggestions = [ustr ''have'', ustr ''had'']\<rparr>"
  let ?el = "input_field 1 (ustr ''I has '') 6"
  let ?w = "window_with 1 [?e] None"
  obtain a el' w' where t: "tryAutoCorrect ?el ?w = (a, el', w')"
    by (cases "tryAutoCorrect ?el ?w") auto
  have wb: "word_bounds ?el = (2, 5)"
    by (simp add: word_bounds_def input_field_def findWordStart.simps ustr_def str_slice_def str_slice_from_def str_substring_def
        slice_index_def substring_index_def char_at_def test_space_def is_space_def
        trim_is_empty_def)
  have m: "match_error [?e] 2 5 = Some ?e"
    by (simp add: match_error_def)
  have mp: "harperErrorMap ?w (el_id ?el) = Some [?e]" "autoCorrectEnabled ?w" "date_now ?w = 0"
    by (simp_all add: window_with_def input_field_def)
  have tx: "el_text ?el = ustr ''I has ''" "el_id ?el = 1"
    by (simp_all add: input_field_def)
  have nb: "\<not> trim_is_empty (str_substring (el_text ?el) 2 5)"
    by (simp add: input_field_def Let_def ustr_def str_slice_def str_slice_from_def str_substring_def
        slice_index_def substring_index_def char_at_def test_space_def is_space_def
        trim_is_empty_def)
  note th = tryAutoCorrect_replaces_span [OF t]
  have "\<exists>errors error.
          autoCorrectEnabled ?w \<and> harperErrorMap ?w (el_id ?el) = Some errors \<and>
          fst (word_bounds ?el) \<noteq> snd (word_bounds ?el) \<and>
          \<not> trim_is_empty (str_substring (el_text ?el) (fst (word_bounds ?el))
                (snd (word_bounds ?el))) \<and>
          match_error errors (fst (word_bounds ?el)) (snd (word_bounds ?el)) = Some error \<and>
          err_suggestions error \<noteq> []"
    apply (rule exI [of _ "[?e]"])
    apply (rule exI [of _ ?e])
    using wb m mp nb by simp
  with th have a: a by blast
  with th obtain errors error where
    e1: "harperErrorMap ?w (el_id ?el) = Some errors" and
    e2: "match_error errors (fst (word_bounds ?el)) (snd (word_bounds ?el)) = Some error" and
    e3: "el_text el' =
           str_slice (el_text ?el) 0 (err_start error) @ (hd (err_suggestions error) @ [0x20]) @
           str_slice_from (el_text ?el) (err_end error)" and
    e4: "lastAutoCorrection w' = Some
           \<lparr>cr_element = el_id ?el,
            originalWord = str_substring (el_text ?el) (err_start error) (err_end error),
            correctedWord = hd (err_suggestions error),
            pos_start = err_start error,
            pos_end = err_start error + int (length (hd (err_suggestions error) @ [0x20])),
            timestamp = date_now ?w\<rparr>"
    by blast
  from e1 mp have "errors = [?e]" by simp
  with e2 wb m have er: "error = ?e" by simp
  have "el_text el' = ustr ''I have  ''"
    unfolding e3 er tx by (simp add: ustr_def str_slice_def str_slice_from_def str_substring_def
        slice_index_def substring_index_def char_at_def test_space_def is_space_def
        trim_is_empty_def)
  moreover have "lastAutoCorrection w' = Some \<lparr>cr_element = 1, originalWord = ustr ''has'',
           correctedWord = ustr ''have'', pos_start = 2, pos_end = 7, timestamp = 0\<rparr>"
    unfolding e4 er tx mp by (simp add: ustr_def str_slice_def str_slice_from_def str_substring_def
        slice_index_def substring_index_def char_at_def test_space_def is_space_def
        trim_is_empty_def)
  ultimately show ?thesis using a t by simp
qed

section \<open>The round trip of a correction and its reversion\<close>












section \<open>Matching the error to correct\<close>

text \<open>
  Claim C6 says that the third matcher takes an error whose span overlaps the word
  \<open>[wordStart, caretPos)\<close>, and that nothing is corrected when no matcher finds an error.
  The code tests \<open>err.start <= caretPos && err.end > wordStart\<close>: an error that starts
  exactly where the word ends is taken although the two spans share no offset.  On
  "I has a dog" with the caret at 6 the word is \<open>[2, 5)\<close>; the only error is \<open>[5, 6)\<close>, the
  space after the word; the correction is applied and the text becomes "I has- a dog".
\<close>

theorem tryAutoCorrect_adjacent_error:
  "word_bounds (input_field 1 (ustr ''I has a dog'') 6) = (2, 5) \<and>
   \<not> (\<exists>i. 2 \<le> i \<and> i < 5 \<and> (5::int) \<le> i \<and> i < 6) \<and>
   match_error [\<lparr>err_start = 5, err_end = 6, err_suggestions = [ustr ''-'']\<rparr>] 2 5 =
     Some \<lparr>err_start = 5, err_end = 6, err_suggestions = [ustr ''-'']\<rparr> \<and>
   fst (tryAutoCorrect (input_field 1 (ustr ''I has a dog'') 6)
     (window_with 1 [\<lparr>err_start = 5, err_end = 6, err_suggestions = [ustr ''-'']\<rparr>] None)) \<and>
   el_text (fst (snd (tryAutoCorrect (input_field 1 (ustr ''I has a dog'') 6)
     (window_with 1 [\<lparr>err_start = 5, err_end = 6, err_suggestions = [ustr ''-'']\<rparr>] None))))
     = ustr ''I has- a dog''"
proof -
  have wb: "word_bounds (input_field 1 (ustr ''I has a dog'') 6) = (2, 5)"
    by (simp add: word_bounds_def input_field_def findWordStart.simps string_evals)
  have m: "match_error [\<lparr>err_start = 5, err_end = 6, err_suggestions = [ustr ''-'']\<rparr>] 2 5 =
     Some \<lparr>err_start = 5, err_end = 6, err_suggestions = [ustr ''-'']\<rparr>"
    by (simp add: match_error_def)
  have no: "\<not> (\<exists>i. 2 \<le> i \<and> i < 5 \<and> (5::int) \<le> i \<and> i < 6)"
    by simp
  have t: "fst (tryAutoCorrect (input_field 1 (ustr ''I has a dog'') 6)
     (window_with 1 [\<lparr>err_start = 5, err_end = 6, err_suggestions = [ustr ''-'']\<rparr>] None)) \<and>
   el_text (fst (snd (tryAutoCorrect (input_field 1 (ustr ''I has a dog'') 6)
     (window_with 1 [\<lparr>err_start = 5, err_end = 6, err_suggestions = [ustr ''-'']\<rparr>] None))))
     = ustr ''I has- a dog''"
    unfolding tryAutoCorrect_cases wb
    by (simp add: match_error_def window_with_def input_field_def applyTextReplacement_def
        place_caret_contenteditable_def place_caret_input_def Let_def string_evals)
  from wb m no t show ?thesis by blast
qed

section \<open>The single slot of the last correction\<close>

lemma tryRevertCorrection_slot:
  "lastAutoCorrection (snd (snd (tryRevertCorrection element w))) = None \<or>
   lastAutoCorrection (snd (snd (tryRevertCorrection element w))) = lastAutoCorrection w"
  by (simp add: tryRevertCorrection_def Let_def split: option.splits)

lemma revert_attempts_slot:
  "lastAutoCorrection (revert_attempts elements w) = None \<or>
   lastAutoCorrection (revert_attempts elements w) = lastAutoCorrection w"
proof (induction elements arbitrary: w)
  case Nil
  then show ?case by simp
next
  case (Cons element elements)
  from Cons.IH [of "snd (snd (tryRevertCorrection element w))"]
    tryRevertCorrection_slot [of element w]
  show ?case by auto
qed

lemma tryAutoCorrect_slot:
  "tryAutoCorrect element w = (True, element', w') \<Longrightarrow>
   \<exists>c. lastAutoCorrection w' = Some c \<and> cr_element c = el_id element \<and>
       w' = w\<lparr>lastAutoCorrection := Some c\<rparr>"
  unfolding tryAutoCorrect_cases
  by (auto split: if_splits option.splits list.splits)

lemma tryAutoCorrect_ignores_slot:
  "tryAutoCorrect element (w\<lparr>lastAutoCorrection := s\<rparr>) =
     (fst (tryAutoCorrect element w), fst (snd (tryAutoCorrect element w)),
      (snd (snd (tryAutoCorrect element w)))\<lparr>lastAutoCorrection :=
         if fst (tryAutoCorrect element w)
         then lastAutoCorrection (snd (snd (tryAutoCorrect element w))) else s\<rparr>)"
  unfolding tryAutoCorrect_cases
  by (simp split: option.splits list.splits)

text \<open>
  Claim C9.  The slot \<open>lastAutoCorrection\<close> holds at most one record.  When a second
  correction is applied while the record \<open>c1\<close> of a first one is still in the slot, the
  slot afterwards holds the record \<open>c2\<close> of the second, and the outcome is the one the
  second correction has on an empty slot: nothing of \<open>c1\<close> is left.  A reversion attempt
  aimed at the first correction (on its element, with the caret where \<open>c1\<close> expects it)
  does nothing to the element unless that is also the element and the caret \<open>c2\<close>
  expects; a reversion that does happen restores the original word of \<open>c2\<close>; and after any
  run of reversion attempts the slot is empty or still holds \<open>c2\<close>, never \<open>c1\<close> again.
  No function of the model has an error outcome.
\<close>

theorem second_correction_overwrites_slot:
  assumes "lastAutoCorrection w = Some c1"
      and "tryAutoCorrect element2 w = (True, element2', w2)"
      and "tryRevertCorrection el w2 = (reverted, el', w3)"
  shows "\<exists>c2. lastAutoCorrection w2 = Some c2 \<and> cr_element c2 = el_id element2 \<and>
           tryAutoCorrect element2 (w\<lparr>lastAutoCorrection := None\<rparr>) = (True, element2', w2) \<and>
           (el_id el = cr_element c1 \<and>
            el_caret el = pos_start c1 + int (length (correctedWord c1)) \<and>
            (cr_element c2 \<noteq> cr_element c1 \<or>
             pos_start c2 + int (length (correctedWord c2)) \<noteq>
               pos_start c1 + int (length (correctedWord c1)))
            \<longrightarrow> \<not> reverted \<and> el' = el) \<and>
           (reverted \<longrightarrow>
              el_text el' =
                str_slice (el_text el) 0 (pos_start c2) @ originalWord c2 @
                str_slice_from (el_text el) (pos_end c2)) \<and>
           (\<forall>elements. lastAutoCorrection (revert_attempts elements w2) = None \<or>
                       lastAutoCorrection (revert_attempts elements w2) = Some c2)"
proof -
  from tryAutoCorrect_slot [OF assms(2)] obtain c2 where
    c2: "lastAutoCorrection w2 = Some c2" "cr_element c2 = el_id element2"
        "w2 = w\<lparr>lastAutoCorrection := Some c2\<rparr>"
    by blast
  have indep: "tryAutoCorrect element2 (w\<lparr>lastAutoCorrection := None\<rparr>) = (True, element2', w2)"
    using assms(2) c2 by (simp add: tryAutoCorrect_ignores_slot)
  have noop: "el_id el = cr_element c1 \<and>
            el_caret el = pos_start c1 + int (length (correctedWord c1)) \<and>
            (cr_element c2 \<noteq> cr_element c1 \<or>
             pos_start c2 + int (length (correctedWord c2)) \<noteq>
               pos_start c1 + int (length (correctedWord c1)))
            \<longrightarrow> \<not> reverted \<and> el' = el"
    using assms(3) c2(1)
    by (auto simp: tryRevertCorrection_def Let_def split: if_splits)
  have rev: "reverted \<longrightarrow>
              el_text el' =
                str_slice (el_text el) 0 (pos_start c2) @ originalWord c2 @
                str_slice_from (el_text el) (pos_end c2)"
    using assms(3) c2(1)
    by (auto simp: tryRevertCorrection_def Let_def applyTextReplacement_text split: if_splits)
  have later: "\<forall>elements. lastAutoCorrection (revert_attempts elements w2) = None \<or>
                       lastAutoCorrection (revert_attempts elements w2) = Some c2"
    using revert_attempts_slot [of _ w2] c2(1) by simp
  from c2 indep noop rev later show ?thesis by blast
qed

theorem second_correction_overwrites_slot_witness:
  "lastAutoCorrection (snd (snd (tryAutoCorrect (input_field 1 (ustr ''the has  '') 8)
      (window_with 1 [\<lparr>err_start = 4, err_end = 7, err_suggestions = [ustr ''have'']\<rparr>]
        (Some \<lparr>cr_element = 1, originalWord = ustr ''teh'', correctedWord = ustr ''the'',
               pos_start = 0, pos_end = 4, timestamp = 0\<rparr>))))) =
     Some \<lparr>cr_element = 1, originalWord = ustr ''has'', correctedWord = ustr ''have'',
           pos_start = 4, pos_end = 9, timestamp = 0\<rparr> \<and>
   tryRevertCorrection
     ((fst (snd (tryAutoCorrect (input_field 1 (ustr ''the has  '') 8)
        (window_with 1 [\<lparr>err_start = 4, err_end = 7, err_suggestions = [ustr ''have'']\<rparr>]
          (Some \<lparr>cr_element = 1, originalWord = ustr ''teh'', correctedWord = ustr ''the'',
                 pos_start = 0, pos_end = 4, timestamp = 0\<rparr>)))))\<lparr>el_caret := 3\<rparr>)
     (snd (snd (tryAutoCorrect (input_field 1 (ustr ''the has  '') 8)
        (window_with 1 [\<lparr>err_start = 4, err_end = 7, err_suggestions = [ustr ''have'']\<rparr>]
          (Some \<lparr>cr_element = 1, originalWord = ustr ''teh'', correctedWord = ustr ''the'',
                 pos_start = 0, pos_end = 4, timestamp = 0\<rparr>))))) =
   (False,
    (fst (snd (tryAutoCorrect (input_field 1 (ustr ''the has  '') 8)
        (window_with 1 [\<lparr>err_start = 4, err_end = 7, err_suggestions = [ustr ''have'']\<rparr>]
          (Some \<lparr>cr_element = 1, originalWord = ustr ''teh'', correctedWord = ustr ''the'',
                 pos_start = 0, pos_end = 4, timestamp = 0\<rparr>)))))\<lparr>el_caret := 3\<rparr>,
    (snd (snd (tryAutoCorrect (input_field 1 (ustr ''the has  '') 8)
        (window_with 1 [\<lparr>err_start = 4, err_end = 7, err_suggestions = [ustr ''have'']\<rparr>]
          (Some \<lparr>cr_element = 1, originalWord = ustr ''teh'', correctedWord = ustr ''the'',
                 pos_start = 0, pos_end = 4, timestamp = 0\<rparr>)))))\<lparr>lastAutoCorrection := None\<rparr>)"
proof -
  let ?c1 = "\<lparr>cr_element = 1, originalWord = ustr ''teh'', correctedWord = ustr ''the'',
               pos_start = 0, pos_end = 4, timestamp = 0\<rparr>"
  let ?c2 = "\<lparr>cr_element = 1, originalWord = ustr ''has'', correctedWord = ustr ''have'',
           pos_start = 4, pos_end = 9, timestamp = 0\<rparr>"
  let ?E = "input_field 1 (ustr ''the has  '') 8"
  let ?W = "window_with 1 [\<lparr>err_start = 4, err_end = 7, err_suggestions = [ustr ''have'']\<rparr>]
        (Some ?c1)"
  let ?r = "tryAutoCorrect ?E ?W"
  let ?el = "(fst (snd ?r))\<lparr>el_caret := 3\<rparr>"
  have wb: "word_bounds ?E = (4, 7)"
    by (simp add: word_bounds_def input_field_def findWordStart.simps string_evals)
  have ev: "fst ?r \<and> el_id (fst (snd ?r)) = 1 \<and> lastAutoCorrection (snd (snd ?r)) = Some ?c2"
    unfolding tryAutoCorrect_cases wb
    by (simp add: match_error_def window_with_def input_field_def applyTextReplacement_def
        place_caret_contenteditable_def place_caret_input_def Let_def string_evals)
  have slot: "lastAutoCorrection ?W = Some ?c1"
    by (simp add: window_with_def)
  have ac: "?r = (True, fst (snd ?r), snd (snd ?r))"
    using ev by (simp add: prod_eq_iff)
  obtain reverted el' w3 where rv:
    "tryRevertCorrection ?el (snd (snd ?r)) = (reverted, el', w3)"
    by (cases "tryRevertCorrection ?el (snd (snd ?r))") auto
  from second_correction_overwrites_slot [OF slot ac rv] obtain c2 where
    c2: "lastAutoCorrection (snd (snd ?r)) = Some c2" and
    noop: "el_id ?el = cr_element ?c1 \<and>
            el_caret ?el = pos_start ?c1 + int (length (correctedWord ?c1)) \<and>
            (cr_element c2 \<noteq> cr_element ?c1 \<or>
             pos_start c2 + int (length (correctedWord c2)) \<noteq>
               pos_start ?c1 + int (length (correctedWord ?c1)))
            \<longrightarrow> \<not> reverted \<and> el' = ?el"
    by blast
  from c2 ev have c2v: "c2 = ?c2" by simp
  from noop ev have res: "\<not> reverted \<and> el' = ?el"
    unfolding c2v by (simp add: ustr_def)
  have "w3 = (snd (snd ?r))\<lparr>lastAutoCorrection := None\<rparr>"
    using rv ev res by (auto simp: tryRevertCorrection_def Let_def ustr_def split: if_splits)
  with res rv ev show ?thesis by simp
qed

section \<open>Rendering in descending order\<close>




















section \<open>The order in which passes resolve\<close>

lemma analyzeText_returns: "\<exists>errors. fst (analyzeText hp t) = Inr errors"
  by (auto simp: analyzeText_def try_catch_def split: sum.splits)

lemma analyzeText_lints_of: "fst (analyzeText hp t) = Inr (lints_of hp t)"
  using analyzeText_returns [of hp t] by (auto simp: lints_of_def)

lemma renderErrors_el_id:
  "renderErrors h element t errors = Inr element' \<Longrightarrow>
   el_id element' = el_id element \<and> el_text element' = el_text element"
  by (auto simp: renderErrors_def split: option.splits sum.splits)

lemma processElement_store_effect:
  "processElement_store h t errors element w = (fulfilled, element', w') \<Longrightarrow>
   el_id element' = el_id element \<and> el_text element' = el_text element \<and>
   w' = w\<lparr>harperErrorMap := (harperErrorMap w)(el_id element \<mapsto> map to_error_record errors)\<rparr>"
  by (auto simp: processElement_store_def Let_def dest: renderErrors_el_id split: sum.splits)

text \<open>What the actions of a task leave: the text, and one microtask for each call.\<close>

lemma actions_effect:
  "foldl (\<lambda>q a. do_action a q) p actions =
     p\<lparr>surface := (surface p)\<lparr>el_text := text_after actions (el_text (surface p))\<rparr>,
       microtasks := microtasks p @
         map (\<lambda>(n, t). AfterReady n t)
           (zip [started p ..< started p + length (texts_read actions (el_text (surface p)))]
              (texts_read actions (el_text (surface p)))),
       started := started p + length (texts_read actions (el_text (surface p)))\<rparr>"
proof (induction actions arbitrary: p)
  case Nil
  then show ?case by simp
next
  case (Cons a actions)
  show ?case
  proof (cases a)
    case CallProcessElement
    have "\<And>n. [started p ..< started p + Suc n] = started p # [Suc (started p) ..< Suc (started p) + n]"
      by (simp add: upt_conv_Cons)
    with CallProcessElement show ?thesis
      by (simp add: Cons.IH call_processElement_def processElement_begin_def del: upt_Suc)
  next
    case (ChangeText t)
    then show ?thesis by (simp add: Cons.IH)
  qed
qed

text \<open>A turn on a microtask of either kind.\<close>

lemma queue_turn_ready:
  "microtasks p = AfterReady n t # ms \<Longrightarrow>
   queue_turn hp h p = p\<lparr>microtasks := ms @ [AfterAnalyze n t (lints_of hp t)]\<rparr>"
  by (simp add: queue_turn_def run_microtask_def analyzeText_lints_of)

lemma queue_turn_analyze:
  "microtasks p = AfterAnalyze n t errors # ms \<Longrightarrow>
   \<exists>element'. queue_turn hp h p =
     p\<lparr>surface := element',
       globals := (globals p)\<lparr>harperErrorMap :=
          (harperErrorMap (globals p))(el_id (surface p) \<mapsto> map to_error_record errors)\<rparr>,
       microtasks := ms, arrived := arrived p @ [n]\<rparr> \<and>
     el_id element' = el_id (surface p) \<and> el_text element' = el_text (surface p)"
proof -
  assume q: "microtasks p = AfterAnalyze n t errors # ms"
  obtain f e' w' where st:
    "processElement_store h t errors (surface p) (globals p) = (f, e', w')"
    by (cases "processElement_store h t errors (surface p) (globals p)") auto
  from processElement_store_effect [OF st] q st show ?thesis
    by (intro exI [of _ e']) (simp add: queue_turn_def run_microtask_def)
qed

text \<open>
  The queue when only second halves of passes are left: they store one after the other.
\<close>

lemma drain_analyzed:
  "microtasks p = map (\<lambda>(n, t). AfterAnalyze n t (lints_of hp t)) nts \<Longrightarrow>
   microtasks (drain hp h p) = [] \<and>
   arrived (drain hp h p) = arrived p @ map fst nts \<and>
   started (drain hp h p) = started p \<and>
   el_id (surface (drain hp h p)) = el_id (surface p) \<and>
   el_text (surface (drain hp h p)) = el_text (surface p) \<and>
   harperErrorMap (globals (drain hp h p)) =
     foldl (\<lambda>m t. m(el_id (surface p) \<mapsto> analysis_of hp t)) (harperErrorMap (globals p))
       (map snd nts)"
proof (induction nts arbitrary: p)
  case Nil
  then show ?case by (simp add: drain.simps)
next
  case (Cons nt nts)
  obtain n t where nt: "nt = (n, t)" by (cases nt)
  with Cons.prems have q: "microtasks p =
      AfterAnalyze n t (lints_of hp t) # map (\<lambda>(n, t). AfterAnalyze n t (lints_of hp t)) nts"
    by simp
  from queue_turn_analyze [OF q, of hp h] obtain element' where
    turn: "queue_turn hp h p =
      p\<lparr>surface := element',
        globals := (globals p)\<lparr>harperErrorMap :=
           (harperErrorMap (globals p))(el_id (surface p) \<mapsto> map to_error_record (lints_of hp t))\<rparr>,
        microtasks := map (\<lambda>(n, t). AfterAnalyze n t (lints_of hp t)) nts,
        arrived := arrived p @ [n]\<rparr>"
    and same: "el_id element' = el_id (surface p)" "el_text element' = el_text (surface p)"
    by blast
  have d: "drain hp h p = drain hp h (queue_turn hp h p)"
    using q by (subst drain.simps) simp
  have "microtasks (queue_turn hp h p) = map (\<lambda>(n, t). AfterAnalyze n t (lints_of hp t)) nts"
    by (simp add: turn)
  from Cons.IH [OF this] show ?case
    unfolding d by (simp add: turn same nt analysis_of_def)
qed

text \<open>
  The queue when first halves stand before second halves: each first half queues its
  second half behind everything, so the second halves end up in the same order.
\<close>

lemma drain_ready:
  "microtasks p = map (\<lambda>(n, t). AfterReady n t) rs @
                  map (\<lambda>(n, t). AfterAnalyze n t (lints_of hp t)) nts \<Longrightarrow>
   drain hp h p =
     drain hp h (p\<lparr>microtasks := map (\<lambda>(n, t). AfterAnalyze n t (lints_of hp t)) (nts @ rs)\<rparr>)"
proof (induction rs arbitrary: p nts)
  case Nil
  then have "p\<lparr>microtasks := map (\<lambda>(n, t). AfterAnalyze n t (lints_of hp t)) (nts @ [])\<rparr> = p"
    by simp
  then show ?case by simp
next
  case (Cons r rs)
  obtain n t where r: "r = (n, t)" by (cases r)
  with Cons.prems have q: "microtasks p =
      AfterReady n t # (map (\<lambda>(n, t). AfterReady n t) rs @
                        map (\<lambda>(n, t). AfterAnalyze n t (lints_of hp t)) nts)"
    by simp
  have d: "drain hp h p = drain hp h (queue_turn hp h p)"
    using q by (subst drain.simps) simp
  have turn: "queue_turn hp h p =
      p\<lparr>microtasks := map (\<lambda>(n, t). AfterReady n t) rs @
                        map (\<lambda>(n, t). AfterAnalyze n t (lints_of hp t)) (nts @ [r])\<rparr>"
    using queue_turn_ready [OF q, of hp h] r by simp
  then have "microtasks (queue_turn hp h p) =
      map (\<lambda>(n, t). AfterReady n t) rs @
      map (\<lambda>(n, t). AfterAnalyze n t (lints_of hp t)) (nts @ [r])"
    by simp
  from Cons.IH [OF this] show ?case
    unfolding d by (simp add: turn)
qed

lemma foldl_update_last:
  "ts \<noteq> [] \<Longrightarrow> foldl (\<lambda>m t. m(i \<mapsto> f t)) m0 ts i = Some (f (last ts))"
  by (induction ts arbitrary: m0) (auto split: if_splits)

lemma run_task_effect:
  assumes "microtasks p = []"
  shows "microtasks (run_task hp h actions p) = [] \<and>
         arrived (run_task hp h actions p) =
           arrived p @
           [started p ..< started p + length (texts_read actions (el_text (surface p)))] \<and>
         started (run_task hp h actions p) =
           started p + length (texts_read actions (el_text (surface p))) \<and>
         el_id (surface (run_task hp h actions p)) = el_id (surface p) \<and>
         el_text (surface (run_task hp h actions p)) = text_after actions (el_text (surface p)) \<and>
         harperErrorMap (globals (run_task hp h actions p)) =
           foldl (\<lambda>m t. m(el_id (surface p) \<mapsto> analysis_of hp t)) (harperErrorMap (globals p))
             (texts_read actions (el_text (surface p)))"
proof -
  let ?ts = "texts_read actions (el_text (surface p))"
  let ?rs = "zip [started p ..< started p + length ?ts] ?ts"
  let ?q = "foldl (\<lambda>q a. do_action a q) p actions"
  let ?q' = "?q\<lparr>microtasks := map (\<lambda>(n, t). AfterAnalyze n t (lints_of hp t)) ?rs\<rparr>"
  have qm: "microtasks ?q = map (\<lambda>(n, t). AfterReady n t) ?rs @
                  map (\<lambda>(n, t). AfterAnalyze n t (lints_of hp t)) []"
    using assms by (subst actions_effect) simp
  have "run_task hp h actions p = drain hp h ?q'"
    unfolding run_task_def using drain_ready [OF qm, of h] by simp
  moreover have "microtasks ?q' = map (\<lambda>(n, t). AfterAnalyze n t (lints_of hp t)) ?rs"
    by simp
  note drain_analyzed [OF this, of h]
  moreover have "arrived ?q' = arrived p" "started ?q' = started p + length ?ts"
    "el_id (surface ?q') = el_id (surface p)"
    "el_text (surface ?q') = text_after actions (el_text (surface p))"
    "globals ?q' = globals p"
    by (subst actions_effect, simp)+
  ultimately show ?thesis by simp
qed

lemma cat_analysis:
  "lints_of cat_analyzer (ustr ''teh cat'') =
     [\<lparr>span_start = 0, span_end = 3, lint_kind = ustr ''spelling'',
       suggestions = [ustr ''the'']\<rparr>]"
  "lints_of cat_analyzer (ustr ''the cat'') = []"
  "analysis_of cat_analyzer (ustr ''teh cat'') =
     [\<lparr>err_start = 0, err_end = 3, err_suggestions = [ustr ''the'']\<rparr>]"
  "analysis_of cat_analyzer (ustr ''the cat'') = []"
  by (simp_all add: analysis_of_def lints_of_def analyzeText_def try_catch_def cat_analyzer_def
      analyzer_for_def to_error_record_def string_evals)

lemma cat_two_passes_value:
  "cat_two_passes =
     cat_page\<lparr>surface := (surface cat_page)\<lparr>el_text := ustr ''the cat''\<rparr>,
       microtasks := [AfterReady 0 (ustr ''teh cat''), AfterReady 1 (ustr ''the cat'')],
       started := 2\<rparr>"
  unfolding cat_two_passes_def actions_effect
  by (simp add: cat_page_def input_field_def upt_rec)

lemma cat_first_arrival_value:
  "microtasks cat_first_arrival = [AfterAnalyze 1 (ustr ''the cat'') []] \<and>
   arrived cat_first_arrival = [0] \<and>
   el_text (surface cat_first_arrival) = ustr ''the cat'' \<and>
   harperErrorMap (globals cat_first_arrival) 1 =
     Some [\<lparr>err_start = 0, err_end = 3, err_suggestions = [ustr ''the'']\<rparr>]"
proof -
  let ?p1 = "cat_two_passes"
  let ?p2 = "cat_two_passes\<lparr>microtasks :=
      [AfterReady 1 (ustr ''the cat'')] @
      [AfterAnalyze 0 (ustr ''teh cat'') (lints_of cat_analyzer (ustr ''teh cat''))]\<rparr>"
  let ?p3 = "?p2\<lparr>microtasks :=
      [AfterAnalyze 0 (ustr ''teh cat'') (lints_of cat_analyzer (ustr ''teh cat''))] @
      [AfterAnalyze 1 (ustr ''the cat'') (lints_of cat_analyzer (ustr ''the cat''))]\<rparr>"
  have m1: "microtasks ?p1 =
      AfterReady 0 (ustr ''teh cat'') # [AfterReady 1 (ustr ''the cat'')]"
    by (simp add: cat_two_passes_value)
  have t1: "queue_turn cat_analyzer plain_host ?p1 = ?p2"
    by (rule queue_turn_ready [OF m1])
  have m2: "microtasks ?p2 = AfterReady 1 (ustr ''the cat'') #
      [AfterAnalyze 0 (ustr ''teh cat'') (lints_of cat_analyzer (ustr ''teh cat''))]"
    by simp
  have t2: "queue_turn cat_analyzer plain_host ?p2 = ?p3"
    by (rule queue_turn_ready [OF m2])
  have m3: "microtasks ?p3 =
      AfterAnalyze 0 (ustr ''teh cat'') (lints_of cat_analyzer (ustr ''teh cat'')) #
      [AfterAnalyze 1 (ustr ''the cat'') (lints_of cat_analyzer (ustr ''the cat''))]"
    by simp
  from queue_turn_analyze [OF m3, of cat_analyzer plain_host] obtain element' where
    t3: "queue_turn cat_analyzer plain_host ?p3 =
      ?p3\<lparr>surface := element',
        globals := (globals ?p3)\<lparr>harperErrorMap :=
           (harperErrorMap (globals ?p3))(el_id (surface ?p3) \<mapsto>
              map to_error_record (lints_of cat_analyzer (ustr ''teh cat'')))\<rparr>,
        microtasks := [AfterAnalyze 1 (ustr ''the cat'') (lints_of cat_analyzer (ustr ''the cat''))],
        arrived := arrived ?p3 @ [0]\<rparr>"
    and same: "el_id element' = el_id (surface ?p3)" "el_text element' = el_text (surface ?p3)"
    by blast
  have eq: "cat_first_arrival = queue_turn cat_analyzer plain_host ?p3"
    unfolding cat_first_arrival_def t1 t2 ..
  show ?thesis
    unfolding eq t3
    by (simp add: same cat_two_passes_value cat_page_def input_field_def window_with_def
        cat_analysis to_error_record_def)
qed

lemma cat_edited_value:
  "microtasks cat_edited = [] \<and>
   el_text (surface cat_edited) = ustr ''the cat'' \<and>
   el_id (surface cat_edited) = 1 \<and>
   harperErrorMap (globals cat_edited) 1 =
     Some [\<lparr>err_start = 0, err_end = 3, err_suggestions = [ustr ''the'']\<rparr>]"
proof -
  let ?q = "run_task cat_analyzer plain_host [CallProcessElement] cat_page"
  have e: "microtasks cat_page = []"
    by (simp add: cat_page_def)
  note q = run_task_effect [OF e, of cat_analyzer plain_host "[CallProcessElement]"]
  from q have qe: "microtasks ?q = []" by simp
  note r = run_task_effect [OF qe, of cat_analyzer plain_host "[ChangeText (ustr ''the cat'')]"]
  from q r show ?thesis
    by (simp add: cat_edited_def cat_page_def input_field_def window_with_def cat_analysis)
qed

text \<open>
  Claim C1, as the specification states it: the result of a superseded pass is discarded
  on arrival, so that offsets of a prior pass are never consulted after the text has
  changed.  It fails on both counts.  When \<open>processElement\<close> is called on "teh cat", the
  text becomes "the cat" and \<open>processElement\<close> is called again in the same task, the first
  pass arrives while the second has started and not yet stored, and its list for
  "teh cat" is stored all the same.  And when a pass on "teh cat" has resolved and the
  text is then edited to "the cat", a right click with the caret at 2 finds the record
  \<open>[0, 3)\<close> of that pass before any new pass has started.
\<close>

theorem superseded_pass_stored_counterexample:
  "started cat_two_passes = 2 \<and>
   microtasks cat_first_arrival = [AfterAnalyze 1 (ustr ''the cat'') []] \<and>
   arrived cat_first_arrival = [0] \<and>
   el_text (surface cat_first_arrival) = ustr ''the cat'' \<and>
   harperErrorMap (globals cat_first_arrival) 1 =
     Some [\<lparr>err_start = 0, err_end = 3, err_suggestions = [ustr ''the'']\<rparr>] \<and>
   microtasks cat_edited = [] \<and>
   el_text (surface cat_edited) = ustr ''the cat'' \<and>
   handleContextMenu_error ((surface cat_edited)\<lparr>el_caret := 2\<rparr>) (globals cat_edited) =
     Some \<lparr>err_start = 0, err_end = 3, err_suggestions = [ustr ''the'']\<rparr>"
  using cat_first_arrival_value cat_edited_value
  by (simp add: cat_two_passes_value handleContextMenu_error_def)

text \<open>
  Claim C1, amended.  The passes of a surface resolve in the order in which they were
  started: the two halves of every pass go through the queue behind those of the passes
  started before it, and the analyzer returns at once.  So an earlier pass never resolves
  after a later one.  No result is discarded on arrival: every pass that was started
  stores its list, replacing the list of the surface in full, and when the queue is
  empty the stored list is the analysis of the text that the pass started last had read.
\<close>

theorem passes_resolve_in_start_order:
  assumes "microtasks p = []"
  shows "microtasks (run_task hp h actions p) = [] \<and>
         arrived (run_task hp h actions p) =
           arrived p @
           [started p ..< started p + length (texts_read actions (el_text (surface p)))] \<and>
         harperErrorMap (globals (run_task hp h actions p)) =
           foldl (\<lambda>m t. m(el_id (surface p) \<mapsto> analysis_of hp t)) (harperErrorMap (globals p))
             (texts_read actions (el_text (surface p))) \<and>
         (texts_read actions (el_text (surface p)) \<noteq> [] \<longrightarrow>
            harperErrorMap (globals (run_task hp h actions p)) (el_id (surface p)) =
              Some (analysis_of hp (last (texts_read actions (el_text (surface p))))))"
  using run_task_effect [OF assms, of hp h actions]
    foldl_update_last [of "texts_read actions (el_text (surface p))" "el_id (surface p)"
      "analysis_of hp" "harperErrorMap (globals p)"]
  by simp

theorem passes_resolve_in_start_order_witness:
  "microtasks (run_task cat_analyzer plain_host
      [CallProcessElement, ChangeText (ustr ''the cat''), CallProcessElement] cat_page) = [] \<and>
   arrived (run_task cat_analyzer plain_host
      [CallProcessElement, ChangeText (ustr ''the cat''), CallProcessElement] cat_page) = [0, 1] \<and>
   harperErrorMap (globals (run_task cat_analyzer plain_host
      [CallProcessElement, ChangeText (ustr ''the cat''), CallProcessElement] cat_page)) 1 =
     Some []"
proof -
  have e: "microtasks cat_page = []"
    by (simp add: cat_page_def)
  have ts: "texts_read [CallProcessElement, ChangeText (ustr ''the cat''), CallProcessElement]
      (el_text (surface cat_page)) = [ustr ''teh cat'', ustr ''the cat'']"
    by (simp add: cat_page_def input_field_def)
  have f: "arrived cat_page = []" "started cat_page = 0" "el_id (surface cat_page) = 1"
    by (simp_all add: cat_page_def input_field_def)
  from passes_resolve_in_start_order [OF e, of cat_analyzer plain_host
      "[CallProcessElement, ChangeText (ustr ''the cat''), CallProcessElement]"]
  show ?thesis
    unfolding ts f by (simp add: cat_analysis upt_rec)
qed

end
